theory Spec2Isabelle
  imports Complex_Main
begin

section \<open>Data model\<close>

text \<open>
  Exceptions raised inside the services are values of \<open>error\<close>; a call that may raise
  returns \<open>error + 'a\<close> with \<open>Inl\<close> for the exception. Python floats are modelled
  as exact reals, Python dicts as maps, Python lists as lists.
\<close>

datatype error =
    ConnectionError
  | ResponseError
  | KeyError string
  | IndexError
  | ValueError
  | ValidationError

text \<open>Scalar metadata values, as the vector store accepts them.\<close>

datatype mval = MStr string | MInt int | MReal real | MBool bool

type_synonym metadata = "string \<rightharpoonup> mval"

text \<open>One persisted unit of the collection: id, vector, chunk text and metadata.\<close>

record entry =
  entry_id :: string
  entry_embedding :: "real list"
  entry_document :: string
  entry_metadata :: metadata

text \<open>The operations of the collection, and the calls that leave the process.\<close>

datatype coll_op = OpCount | OpGet | OpDelete | OpAdd | OpQuery

datatype call =
    Embeddings string
  | Chat string
  | ListModels
  | Coll coll_op

text \<open>
  The state outside the Python objects: the contents of the collection \<open>documents\<close>
  and the log of every call made to the embedding model, the language model and the
  collection, in the order the calls are made.
\<close>

record world =
  collection :: "entry list"
  calls :: "call list"

definition log_call :: "call \<Rightarrow> world \<Rightarrow> world" where
  "log_call c w = w\<lparr>calls := calls w @ [c]\<rparr>"

subsection \<open>Decimal formatting of an index, as an f-string does\<close>

definition digit_char :: "nat \<Rightarrow> char" where
  "digit_char d = ''0123456789'' ! d"

fun str_nat :: "nat \<Rightarrow> string" where
  "str_nat n = (if n < 10 then [digit_char n] else str_nat (n div 10) @ [digit_char (n mod 10)])"

declare str_nat.simps [simp del]

section \<open>The collection of the vector database\<close>

text \<open>
  Modelled from the spec: the collection of the vector database, a third-party store whose
  code is not part of the repository. Its operations act on the list of entries. A
  \<open>where\<close> filter restricts to the entries whose metadata has the given value (or one
  of the given values) under a key. \<open>get\<close> returns the entries the filter selects,
  \<open>delete\<close> removes the entries with the given ids. \<open>add\<close> requires its four lists
  to have one length and writes nothing when it fails; an id already present is left as it
  is (the insert semantics of the store). \<open>query\<close> returns up to \<open>n_results\<close> of the
  entries the filter selects, nearest first, all of them when there are fewer, none when
  there are none.
\<close>

datatype where_filter =
    WhereEq string mval
  | WhereIn string "mval list"

fun where_matches :: "where_filter option \<Rightarrow> metadata \<Rightarrow> bool" where
  "where_matches None md = True"
| "where_matches (Some (WhereEq k v)) md = (md k = Some v)"
| "where_matches (Some (WhereIn k vs)) md = (case md k of None \<Rightarrow> False | Some v \<Rightarrow> v \<in> set vs)"

definition chroma_get :: "where_filter option \<Rightarrow> entry list \<Rightarrow> entry list" where
  "chroma_get wh c = filter (\<lambda>e. where_matches wh (entry_metadata e)) c"

definition chroma_delete :: "string list \<Rightarrow> entry list \<Rightarrow> entry list" where
  "chroma_delete ids c = filter (\<lambda>e. entry_id e \<notin> set ids) c"

definition chroma_add ::
  "string list \<Rightarrow> real list list \<Rightarrow> string list \<Rightarrow> metadata list \<Rightarrow> entry list
     \<Rightarrow> error + entry list" where
  "chroma_add ids embeddings documents metadatas c =
     (if length embeddings \<noteq> length ids \<or> length documents \<noteq> length ids
         \<or> length metadatas \<noteq> length ids
      then Inl ValueError
      else Inr (c @ filter (\<lambda>e. entry_id e \<notin> entry_id ` set c)
                      (map (\<lambda>(i, v, d, m).
                              \<lparr>entry_id = i, entry_embedding = v, entry_document = d,
                               entry_metadata = m\<rparr>)
                           (zip ids (zip embeddings (zip documents metadatas))))))"

text \<open>The result of a query: one inner list per query embedding, under four keys.\<close>

record query_result =
  res_ids :: "string list list"
  res_documents :: "string list list"
  res_metadatas :: "metadata list list"
  res_distances :: "real list list"

definition chroma_hits ::
  "(real list \<Rightarrow> real list \<Rightarrow> real) \<Rightarrow> real list \<Rightarrow> int \<Rightarrow> where_filter option
     \<Rightarrow> entry list \<Rightarrow> entry list" where
  "chroma_hits distance q n_results wh c =
     take (nat n_results) (sort_key (\<lambda>e. distance q (entry_embedding e)) (chroma_get wh c))"

definition chroma_query ::
  "(real list \<Rightarrow> real list \<Rightarrow> real) \<Rightarrow> real list \<Rightarrow> int \<Rightarrow> where_filter option
     \<Rightarrow> entry list \<Rightarrow> query_result" where
  "chroma_query distance q n_results wh c =
     (let hits = chroma_hits distance q n_results wh c
      in \<lparr>res_ids = [map entry_id hits],
          res_documents = [map entry_document hits],
          res_metadatas = [map entry_metadata hits],
          res_distances = [map (\<lambda>e. distance q (entry_embedding e)) hits]\<rparr>)"

section \<open>VectorStoreService\<close>

text \<open>
  The object holds the handle of the collection. \<open>vs_fault\<close> says which operations of
  the collection raise (the store being unreachable or refusing the operation), and
  \<open>vs_distance\<close> is the distance of the collection's space (cosine).
\<close>

record VectorStoreService =
  vs_fault :: "coll_op \<Rightarrow> error option"
  vs_distance :: "real list \<Rightarrow> real list \<Rightarrow> real"

definition chunk_ids :: "string \<Rightarrow> nat \<Rightarrow> string list" where
  "chunk_ids document_id n = map (\<lambda>i. document_id @ ''_chunk_'' @ str_nat i) [0..<n]"

definition or_empty :: "metadata option \<Rightarrow> metadata" where
  "or_empty md = (case md of None \<Rightarrow> Map.empty | Some m \<Rightarrow> m)"

definition chunk_metadatas :: "string \<Rightarrow> nat \<Rightarrow> metadata option \<Rightarrow> metadata list" where
  "chunk_metadatas document_id n md =
     map (\<lambda>i. [''document_id'' \<mapsto> MStr document_id, ''chunk_index'' \<mapsto> MInt (int i)]
               ++ or_empty md) [0..<n]"

definition add_chunks ::
  "VectorStoreService \<Rightarrow> string \<Rightarrow> string list \<Rightarrow> real list list \<Rightarrow> metadata option
     \<Rightarrow> world \<Rightarrow> (error + nat) \<times> world" where
  "add_chunks vs document_id chunks embeddings md w =
     (let ids = chunk_ids document_id (length chunks);
          metadatas = chunk_metadatas document_id (length chunks) md;
          w1 = log_call (Coll OpAdd) w
      in case vs_fault vs OpAdd of
           Some e \<Rightarrow> (Inl e, w1)
         | None \<Rightarrow>
             (case chroma_add ids embeddings chunks metadatas (collection w1) of
                Inl e \<Rightarrow> (Inl e, w1)
              | Inr c \<Rightarrow> (Inr (length chunks), w1\<lparr>collection := c\<rparr>)))"

definition where_filter_of :: "string list option \<Rightarrow> where_filter option" where
  "where_filter_of document_ids =
     (case document_ids of
        None \<Rightarrow> None
      | Some ds \<Rightarrow>
          if ds = [] then None
          else if length ds = 1 then Some (WhereEq ''document_id'' (MStr (hd ds)))
          else Some (WhereIn ''document_id'' (map MStr ds)))"

definition VectorStore_query ::
  "VectorStoreService \<Rightarrow> real list \<Rightarrow> int \<Rightarrow> string list option \<Rightarrow> world
     \<Rightarrow> (error + query_result) \<times> world" where
  "VectorStore_query vs query_embedding top_k document_ids w =
     (let where_filter = where_filter_of document_ids;
          w1 = log_call (Coll OpQuery) w
      in case vs_fault vs OpQuery of
           Some e \<Rightarrow> (Inl e, w1)
         | None \<Rightarrow>
             (Inr (chroma_query (vs_distance vs) query_embedding top_k where_filter
                     (collection w1)),
              w1))"

definition VectorStore_delete_document ::
  "VectorStoreService \<Rightarrow> string \<Rightarrow> world \<Rightarrow> (error + nat) \<times> world" where
  "VectorStore_delete_document vs document_id w =
     (let w1 = log_call (Coll OpGet) w
      in case vs_fault vs OpGet of
           Some e \<Rightarrow> (Inl e, w1)
         | None \<Rightarrow>
             (let existing = map entry_id
                    (chroma_get (Some (WhereEq ''document_id'' (MStr document_id)))
                       (collection w1));
                  count = length existing
              in if count > 0 then
                   (let w2 = log_call (Coll OpDelete) w1
                    in case vs_fault vs OpDelete of
                         Some e \<Rightarrow> (Inl e, w2)
                       | None \<Rightarrow>
                           (Inr count,
                            w2\<lparr>collection := chroma_delete existing (collection w2)\<rparr>))
                 else (Inr count, w1)))"

definition VectorStore_check_connection :: "VectorStoreService \<Rightarrow> world \<Rightarrow> bool \<times> world" where
  "VectorStore_check_connection vs w =
     (case vs_fault vs OpCount of
        None \<Rightarrow> (True, log_call (Coll OpCount) w)
      | Some e \<Rightarrow> (False, log_call (Coll OpCount) w))"

section \<open>EmbeddingService\<close>

text \<open>
  The object holds the client of the embedding model and the text splitter, both
  third-party: \<open>es_embeddings\<close> is the reply of the model to one prompt (the vector under
  the key \<open>embedding\<close>, or the exception raised), \<open>es_list\<close> the reply to the request
  for the model list, \<open>es_splitter\<close> the splitter configured with chunk size 500,
  overlap 50 and the separators of the source.
\<close>

record EmbeddingService =
  es_embeddings :: "string \<Rightarrow> error + real list"
  es_list :: "error + string list"
  es_splitter :: "string \<Rightarrow> error + string list"

definition split_text :: "EmbeddingService \<Rightarrow> string \<Rightarrow> error + string list" where
  "split_text es text = es_splitter es text"

definition generate_embedding ::
  "EmbeddingService \<Rightarrow> string \<Rightarrow> world \<Rightarrow> (error + real list) \<times> world" where
  "generate_embedding es text w = (es_embeddings es text, log_call (Embeddings text) w)"

text \<open>The loop of \<open>generate_embeddings\<close>, with the list \<open>embeddings\<close> it appends to.\<close>

fun generate_embeddings_loop ::
  "EmbeddingService \<Rightarrow> string list \<Rightarrow> real list list \<Rightarrow> world
     \<Rightarrow> (error + real list list) \<times> world" where
  "generate_embeddings_loop es [] embeddings w = (Inr embeddings, w)"
| "generate_embeddings_loop es (text # texts) embeddings w =
     (case generate_embedding es text w of
        (Inl e, w1) \<Rightarrow> (Inl e, w1)
      | (Inr embedding, w1) \<Rightarrow> generate_embeddings_loop es texts (embeddings @ [embedding]) w1)"

definition generate_embeddings ::
  "EmbeddingService \<Rightarrow> string list \<Rightarrow> world \<Rightarrow> (error + real list list) \<times> world" where
  "generate_embeddings es texts w = generate_embeddings_loop es texts [] w"

definition Embedding_check_connection ::
  "EmbeddingService \<Rightarrow> world \<Rightarrow> (bool \<times> string list) \<times> world" where
  "Embedding_check_connection es w =
     (case es_list es of
        Inr model_names \<Rightarrow> ((True, model_names), log_call ListModels w)
      | Inl e \<Rightarrow> ((False, []), log_call ListModels w))"

section \<open>RagService\<close>

record SourceChunk =
  sc_document_id :: string
  sc_chunk_text :: string
  sc_relevance_score :: real
  sc_metadata :: "metadata option"

record QueryResponse =
  answer :: string
  sources :: "SourceChunk list"
  document_ids_searched :: "string list"

record RagService =
  rag_embedding_service :: EmbeddingService
  rag_vector_store :: VectorStoreService
  rag_llm_chat :: "string \<Rightarrow> error + string"

definition RAG_PROMPT_TEMPLATE :: "string \<Rightarrow> string \<Rightarrow> string" where
  "RAG_PROMPT_TEMPLATE context question =
     ''You are a helpful assistant that answers questions based on the provided context.\<newline>''
     @ ''Use ONLY the information in the context below to answer the question.\<newline>''
     @ ''If the context does not contain enough information to answer, say so clearly.\<newline>''
     @ ''Do not make up information.\<newline>\<newline>Context:\<newline>''
     @ context
     @ ''\<newline>\<newline>Question: '' @ question @ ''\<newline>\<newline>Answer:''"

definition no_documents_answer :: string where
  "no_documents_answer =
     ''No relevant documents found to answer this question. Please index some documents first.''"

fun str_join :: "string \<Rightarrow> string list \<Rightarrow> string" where
  "str_join sep [] = []"
| "str_join sep [x] = x"
| "str_join sep (x # y # ys) = x @ sep @ str_join sep (y # ys)"

definition py_nth :: "'a list \<Rightarrow> nat \<Rightarrow> error + 'a" where
  "py_nth xs i = (if i < length xs then Inr (xs ! i) else Inl IndexError)"

text \<open>Python's \<open>round(x, ndigits)\<close> on exact values: to the nearest, ties to even.\<close>

definition py_round :: "real \<Rightarrow> nat \<Rightarrow> real" where
  "py_round x ndigits =
     (let y = x * 10 ^ ndigits;
          f = \<lfloor>y\<rfloor>;
          r = y - of_int f
      in (if r < 1 / 2 then of_int f
          else if 1 / 2 < r then of_int (f + 1)
          else if even f then of_int f
          else of_int (f + 1)) / 10 ^ ndigits)"

definition index_document ::
  "RagService \<Rightarrow> string \<Rightarrow> string \<Rightarrow> metadata option \<Rightarrow> world \<Rightarrow> (error + nat) \<times> world" where
  "index_document svc document_id content md w =
     (case VectorStore_delete_document (rag_vector_store svc) document_id w of
        (Inl e, w1) \<Rightarrow> (Inl e, w1)
      | (Inr deleted, w1) \<Rightarrow>
          (case split_text (rag_embedding_service svc) content of
             Inl e \<Rightarrow> (Inl e, w1)
           | Inr chunks \<Rightarrow>
               if chunks = [] then (Inr 0, w1)
               else
                 (case generate_embeddings (rag_embedding_service svc) chunks w1 of
                    (Inl e, w2) \<Rightarrow> (Inl e, w2)
                  | (Inr embeddings, w2) \<Rightarrow>
                      add_chunks (rag_vector_store svc) document_id chunks embeddings md w2)))"

text \<open>
  The loop of \<open>query\<close> over \<open>enumerate(results["documents"][0])\<close>, with the three
  collections it fills: \<open>sources\<close> (here \<open>sources_acc\<close>), \<open>context_parts\<close> and the set \<open>searched_doc_ids\<close>
  (kept as a list without duplicates; the order in which Python lists a set is not fixed).
\<close>

fun collect_sources ::
  "(nat \<times> string) list \<Rightarrow> query_result \<Rightarrow> SourceChunk list \<times> string list \<times> string list
     \<Rightarrow> error + SourceChunk list \<times> string list \<times> string list" where
  "collect_sources [] results acc = Inr acc"
| "collect_sources ((i, chunk_text) # rest) results (sources_acc, context_parts, searched_doc_ids) =
     (case py_nth (res_metadatas results) 0 of
        Inl e \<Rightarrow> Inl e
      | Inr metadatas \<Rightarrow>
     (case py_nth metadatas i of
        Inl e \<Rightarrow> Inl e
      | Inr metadata \<Rightarrow>
     (case py_nth (res_distances results) 0 of
        Inl e \<Rightarrow> Inl e
      | Inr distances \<Rightarrow>
     (case py_nth distances i of
        Inl e \<Rightarrow> Inl e
      | Inr distance \<Rightarrow>
          (let relevance = 1 - distance / 2
           in case metadata ''document_id'' of
                None \<Rightarrow> Inl (KeyError ''document_id'')
              | Some (MStr doc_id) \<Rightarrow>
                  collect_sources rest results
                    (sources_acc @ [\<lparr>sc_document_id = doc_id, sc_chunk_text = chunk_text,
                                 sc_relevance_score = py_round relevance 4,
                                 sc_metadata = Some metadata\<rparr>],
                     context_parts @ [chunk_text],
                     List.insert doc_id searched_doc_ids)
              | Some other \<Rightarrow> Inl ValidationError)))))"

definition Rag_query ::
  "RagService \<Rightarrow> string \<Rightarrow> string list option \<Rightarrow> int \<Rightarrow> world
     \<Rightarrow> (error + QueryResponse) \<times> world" where
  "Rag_query svc question document_ids top_k w =
     (case generate_embedding (rag_embedding_service svc) question w of
        (Inl e, w1) \<Rightarrow> (Inl e, w1)
      | (Inr query_embedding, w1) \<Rightarrow>
     (case VectorStore_query (rag_vector_store svc) query_embedding top_k document_ids w1 of
        (Inl e, w2) \<Rightarrow> (Inl e, w2)
      | (Inr results, w2) \<Rightarrow>
     (case (if res_ids results \<noteq> [] \<and> hd (res_ids results) \<noteq> [] then
              (case py_nth (res_documents results) 0 of
                 Inl e \<Rightarrow> Inl e
               | Inr documents \<Rightarrow> collect_sources (enumerate 0 documents) results ([], [], []))
            else Inr ([], [], [])) of
        Inl e \<Rightarrow> (Inl e, w2)
      | Inr (sources_found, context_parts, searched_doc_ids) \<Rightarrow>
          if context_parts = [] then
            (Inr \<lparr>answer = no_documents_answer, sources = [],
                  document_ids_searched = searched_doc_ids\<rparr>, w2)
          else
            (let context = str_join ''\<newline>\<newline>---\<newline>\<newline>'' context_parts;
                 prompt = RAG_PROMPT_TEMPLATE context question;
                 w3 = log_call (Chat prompt) w2
             in case rag_llm_chat svc prompt of
                  Inl e \<Rightarrow> (Inl e, w3)
                | Inr reply \<Rightarrow>
                    (Inr \<lparr>answer = reply, sources = sources_found,
                          document_ids_searched = searched_doc_ids\<rparr>, w3)))))"

definition Rag_delete_document :: "RagService \<Rightarrow> string \<Rightarrow> world \<Rightarrow> (error + nat) \<times> world" where
  "Rag_delete_document svc document_id w =
     VectorStore_delete_document (rag_vector_store svc) document_id w"

section \<open>Request models and router\<close>

text \<open>
  \<open>QueryRequest\<close> is the validated request; the body of a POST is what arrives, with
  the optional fields absent or present. The framework builds the request from the body
  and calls the endpoint only if the constraints of the fields hold.
\<close>

record QueryRequest =
  qr_question :: string
  qr_document_ids :: "string list option"
  qr_top_k :: int

record query_body =
  body_question :: "string option"
  body_document_ids :: "string list option"
  body_top_k :: "int option"

definition QueryRequest_validate :: "query_body \<Rightarrow> error + QueryRequest" where
  "QueryRequest_validate body =
     (case body_question body of
        None \<Rightarrow> Inl ValidationError
      | Some q \<Rightarrow>
          if length q < 1 then Inl ValidationError
          else
            (let k = (case body_top_k body of None \<Rightarrow> 3 | Some k \<Rightarrow> k)
             in if k < 1 \<or> 10 < k then Inl ValidationError
                else Inr \<lparr>qr_question = q, qr_document_ids = body_document_ids body,
                          qr_top_k = k\<rparr>))"

record HealthResponse =
  status :: string
  ollama_connected :: bool
  chromadb_connected :: bool
  models_available :: "string list"

text \<open>The three module-level references of the router, \<open>None\<close> until \<open>init_router\<close>.\<close>

record router =
  r_rag_service :: "RagService option"
  r_embedding_service :: "EmbeddingService option"
  r_vector_store :: "VectorStoreService option"

definition router_at_import :: router where
  "router_at_import =
     \<lparr>r_rag_service = None, r_embedding_service = None, r_vector_store = None\<rparr>"

definition init_router :: "RagService \<Rightarrow> EmbeddingService \<Rightarrow> VectorStoreService \<Rightarrow> router" where
  "init_router rag_service embedding_service vector_store =
     \<lparr>r_rag_service = Some rag_service, r_embedding_service = Some embedding_service,
      r_vector_store = Some vector_store\<rparr>"

datatype http_error = HTTPException nat | RequestValidationError

definition query_documents ::
  "router \<Rightarrow> QueryRequest \<Rightarrow> world \<Rightarrow> (http_error + QueryResponse) \<times> world" where
  "query_documents rt request w =
     (case r_rag_service rt of
        None \<Rightarrow> (Inl (HTTPException 503), w)
      | Some service \<Rightarrow>
          (case Rag_query service (qr_question request) (qr_document_ids request)
                  (qr_top_k request) w of
             (Inl e, w1) \<Rightarrow> (Inl (HTTPException 500), w1)
           | (Inr response, w1) \<Rightarrow> (Inr response, w1)))"

definition post_query ::
  "router \<Rightarrow> query_body \<Rightarrow> world \<Rightarrow> (http_error + QueryResponse) \<times> world" where
  "post_query rt body w =
     (case QueryRequest_validate body of
        Inl e \<Rightarrow> (Inl RequestValidationError, w)
      | Inr request \<Rightarrow> query_documents rt request w)"

definition health_check :: "router \<Rightarrow> world \<Rightarrow> HealthResponse \<times> world" where
  "health_check rt w =
     (case (r_embedding_service rt, r_vector_store rt) of
        (Some embedding_service, Some vector_store) \<Rightarrow>
          (case Embedding_check_connection embedding_service w of
             ((ollama_ok, models), w1) \<Rightarrow>
               (case VectorStore_check_connection vector_store w1 of
                  (chroma_ok, w2) \<Rightarrow>
                    (\<lparr>status = (if ollama_ok \<and> chroma_ok then ''healthy'' else ''degraded''),
                      ollama_connected = ollama_ok, chromadb_connected = chroma_ok,
                      models_available = models\<rparr>, w2)))
      | _ \<Rightarrow>
          (\<lparr>status = ''unhealthy'', ollama_connected = False, chromadb_connected = False,
            models_available = []\<rparr>, w))"

section \<open>Specification predicates and concrete services\<close>

text \<open>
  \<open>source_of_hit d s e\<close>: the source \<open>s\<close> of a response is the one built from the entry
  \<open>e\<close> of the collection, whose distance to the query is \<open>d e\<close>.
\<close>

definition source_of_hit :: "(entry \<Rightarrow> real) \<Rightarrow> SourceChunk \<Rightarrow> entry \<Rightarrow> bool" where
  "source_of_hit d s e =
     (entry_metadata e ''document_id'' = Some (MStr (sc_document_id s))
      \<and> sc_chunk_text s = entry_document e
      \<and> sc_relevance_score s = py_round (1 - d e / 2) 4
      \<and> sc_metadata s = Some (entry_metadata e))"

text \<open>The entries the collection holds for a document: those its \<open>where\<close> filter selects.\<close>

definition chunks_of :: "string \<Rightarrow> world \<Rightarrow> entry list" where
  "chunks_of document_id w =
     chroma_get (Some (WhereEq ''document_id'' (MStr document_id))) (collection w)"

text \<open>
  Small services on which the model is run: an embedding model that answers every prompt
  but \<open>fail\<close> with a one-dimensional vector, a splitter that keeps a short text whole,
  a store that answers every operation, and a language model that always replies.
\<close>

definition es_ok :: EmbeddingService where
  "es_ok = \<lparr>es_embeddings = (\<lambda>t. if t = ''fail'' then Inl ConnectionError
                                  else Inr [real (length t)]),
            es_list = Inr [''nomic-embed-text''],
            es_splitter = (\<lambda>t. Inr (if t = [] then [] else [t]))\<rparr>"

definition vs_ok :: VectorStoreService where
  "vs_ok = \<lparr>vs_fault = (\<lambda>op. None),
            vs_distance = (\<lambda>a b. if a = b then 0 else 1)\<rparr>"

definition rag_ok :: RagService where
  "rag_ok = \<lparr>rag_embedding_service = es_ok, rag_vector_store = vs_ok,
             rag_llm_chat = (\<lambda>prompt. Inr ''ok'')\<rparr>"

definition empty_world :: world where
  "empty_world = \<lparr>collection = [], calls = []\<rparr>"

text \<open>A collection that already holds one chunk of document \<open>A\<close> and one of \<open>B\<close>.\<close>

definition stale_world :: world where
  "stale_world =
     \<lparr>collection =
        [\<lparr>entry_id = ''A_chunk_0'', entry_embedding = [3], entry_document = ''old'',
          entry_metadata = [''document_id'' \<mapsto> MStr ''A'', ''chunk_index'' \<mapsto> MInt 0]\<rparr>,
         \<lparr>entry_id = ''B_chunk_0'', entry_embedding = [5], entry_document = ''other'',
          entry_metadata = [''document_id'' \<mapsto> MStr ''B'', ''chunk_index'' \<mapsto> MInt 0]\<rparr>],
      calls = []\<rparr>"

section \<open>Auxiliary lemmas\<close>

lemmas run_defs =
  add_chunks_def index_document_def VectorStore_delete_document_def VectorStore_query_def
  generate_embeddings_def generate_embedding_def split_text_def chroma_add_def chroma_get_def
  chroma_delete_def chroma_query_def chroma_hits_def chunk_ids_def chunk_metadatas_def
  or_empty_def log_call_def chunks_of_def where_filter_of_def
  es_ok_def vs_ok_def rag_ok_def empty_world_def digit_char_def

lemmas eval_defs = run_defs Rag_query_def post_query_def query_documents_def
  QueryRequest_validate_def init_router_def py_nth_def RAG_PROMPT_TEMPLATE_def
  no_documents_answer_def stale_world_def py_round_def

lemma py_nth_0 [simp]: "py_nth [x] 0 = Inr x"
  by (simp add: py_nth_def)

lemma py_nth_append_length [simp]: "length xs = n \<Longrightarrow> py_nth (xs @ y # ys) n = Inr y"
  by (auto simp: py_nth_def nth_append)

lemma collect_sources_hits:
  assumes "res_metadatas R = [map entry_metadata (pre @ suf)]"
    and "res_distances R = [map d (pre @ suf)]"
    and "collect_sources (enumerate (length pre) (map entry_document suf)) R (s0, c0, d0)
           = Inr (s, c, ds)"
  shows "\<exists>sn. s = s0 @ sn \<and> list_all2 (source_of_hit d) sn suf \<and> c = c0 @ map entry_document suf"
  using assms
proof (induction suf arbitrary: pre s0 c0 d0)
  case Nil
  then show ?case by simp
next
  case (Cons e suf)
  from Cons.prems(3) Cons.prems(1,2)
  obtain doc where doc: "entry_metadata e ''document_id'' = Some (MStr doc)"
    and rec: "collect_sources (enumerate (Suc (length pre)) (map entry_document suf)) R
        (s0 @ [\<lparr>sc_document_id = doc, sc_chunk_text = entry_document e,
                 sc_relevance_score = py_round (1 - d e / 2) 4,
                 sc_metadata = Some (entry_metadata e)\<rparr>],
         c0 @ [entry_document e], List.insert doc d0) = Inr (s, c, ds)"
    by (auto split: option.splits mval.splits)
  have m: "res_metadatas R = [map entry_metadata ((pre @ [e]) @ suf)]"
    and dd: "res_distances R = [map d ((pre @ [e]) @ suf)]"
    using Cons.prems(1,2) by simp_all
  have rec': "collect_sources (enumerate (length (pre @ [e])) (map entry_document suf)) R
        (s0 @ [\<lparr>sc_document_id = doc, sc_chunk_text = entry_document e,
                 sc_relevance_score = py_round (1 - d e / 2) 4,
                 sc_metadata = Some (entry_metadata e)\<rparr>],
         c0 @ [entry_document e], List.insert doc d0) = Inr (s, c, ds)"
    using rec by simp
  from Cons.IH[OF m dd rec']
  obtain sn where sn: "s = (s0 @ [\<lparr>sc_document_id = doc, sc_chunk_text = entry_document e,
                 sc_relevance_score = py_round (1 - d e / 2) 4,
                 sc_metadata = Some (entry_metadata e)\<rparr>]) @ sn"
      "list_all2 (source_of_hit d) sn suf"
      "c = (c0 @ [entry_document e]) @ map entry_document suf" by blast
  have hd: "source_of_hit d \<lparr>sc_document_id = doc, sc_chunk_text = entry_document e,
                 sc_relevance_score = py_round (1 - d e / 2) 4,
                 sc_metadata = Some (entry_metadata e)\<rparr> e"
    using doc by (simp add: source_of_hit_def)
  show ?case
    apply (rule exI[of _ "\<lparr>sc_document_id = doc, sc_chunk_text = entry_document e,
                 sc_relevance_score = py_round (1 - d e / 2) 4,
                 sc_metadata = Some (entry_metadata e)\<rparr> # sn"])
    using sn hd by simp
qed

lemma Rag_query_sources:
  assumes "Rag_query svc question document_ids top_k w = (Inr resp, w')"
  shows "\<exists>qv. es_embeddings (rag_embedding_service svc) question = Inr qv
     \<and> list_all2 (source_of_hit (\<lambda>e. vs_distance (rag_vector_store svc) qv (entry_embedding e)))
          (sources resp)
          (chroma_hits (vs_distance (rag_vector_store svc)) qv top_k
             (where_filter_of document_ids) (collection w))
     \<and> collection w' = collection w"
proof -
  from assms obtain qv where qv: "es_embeddings (rag_embedding_service svc) question = Inr qv"
    by (auto simp: Rag_query_def generate_embedding_def split: sum.splits prod.splits)
  let ?vs = "rag_vector_store svc"
  let ?w1 = "log_call (Embeddings question) w"
  from assms qv obtain results w2 where
    vq: "VectorStore_query ?vs qv top_k document_ids ?w1 = (Inr results, w2)"
    by (auto simp: Rag_query_def generate_embedding_def split: sum.splits prod.splits)
  let ?hits = "chroma_hits (vs_distance ?vs) qv top_k (where_filter_of document_ids) (collection w)"
  let ?d = "\<lambda>e. vs_distance ?vs qv (entry_embedding e)"
  from vq have w2: "collection w2 = collection w"
    and R: "results = \<lparr>res_ids = [map entry_id ?hits],
                res_documents = [map entry_document ?hits],
                res_metadatas = [map entry_metadata ?hits],
                res_distances = [map ?d ?hits]\<rparr>"
    by (auto simp: VectorStore_query_def chroma_query_def log_call_def Let_def
          split: option.splits if_splits)
  show ?thesis
  proof (cases "?hits = []")
    case True
    with assms qv vq R have "sources resp = []" "collection w' = collection w2"
      by (auto simp: Rag_query_def generate_embedding_def split: sum.splits prod.splits)
    with True qv w2 show ?thesis by simp
  next
    case False
    with assms qv vq R obtain s c ds where
      cs: "collect_sources (enumerate 0 (map entry_document ?hits)) results ([], [], [])
             = Inr (s, c, ds)"
      by (auto simp: Rag_query_def generate_embedding_def split: sum.splits prod.splits)
    have "\<exists>sn. s = [] @ sn \<and> list_all2 (source_of_hit ?d) sn ?hits
             \<and> c = [] @ map entry_document ?hits"
      by (rule collect_sources_hits[where pre="[]"]) (use R cs in simp_all)
    then have s: "list_all2 (source_of_hit ?d) s ?hits" and c: "c \<noteq> []"
      using False by auto
    from assms qv vq R False cs c have "sources resp = s" "collection w' = collection w2"
      by (auto simp: Rag_query_def generate_embedding_def log_call_def Let_def
            split: sum.splits prod.splits)
    with s qv w2 show ?thesis by simp
  qed
qed

lemma generate_embeddings_loop_result:
  "generate_embeddings_loop es texts acc w = (r, w') \<Longrightarrow>
     collection w' = collection w \<and>
     (case r of
        Inr vs \<Rightarrow> map Inr vs = map Inr acc @ map (es_embeddings es) texts
                  \<and> calls w' = calls w @ map Embeddings texts
      | Inl e \<Rightarrow> (\<exists>k<length texts. es_embeddings es (texts ! k) = Inl e
                    \<and> (\<forall>j<k. \<not> isl (es_embeddings es (texts ! j)))
                    \<and> calls w' = calls w @ map Embeddings (take (Suc k) texts)))"
proof (induction texts arbitrary: acc w)
  case Nil
  then show ?case by auto
next
  case (Cons t ts)
  show ?case
  proof (cases "es_embeddings es t")
    case (Inl e)
    with Cons.prems have "r = Inl e" "w' = log_call (Embeddings t) w"
      by (auto simp: generate_embedding_def)
    then show ?thesis using Inl
      by (auto simp: log_call_def intro!: exI[of _ 0])
  next
    case (Inr v)
    with Cons.prems have rec:
      "generate_embeddings_loop es ts (acc @ [v]) (log_call (Embeddings t) w) = (r, w')"
      by (auto simp: generate_embedding_def)
    note ih = Cons.IH[OF rec]
    show ?thesis
    proof (cases r)
      case (Inr vs)
      with ih show ?thesis using \<open>es_embeddings es t = Inr v\<close>
        by (auto simp: log_call_def)
    next
      case (Inl e)
      with ih obtain k where k: "k < length ts" "es_embeddings es (ts ! k) = Inl e"
        "\<forall>j<k. \<not> isl (es_embeddings es (ts ! j))"
        "calls w' = calls (log_call (Embeddings t) w) @ map Embeddings (take (Suc k) ts)"
        by auto
      have "\<forall>j<Suc k. \<not> isl (es_embeddings es ((t # ts) ! j))"
        using k(3) \<open>es_embeddings es t = Inr v\<close> by (auto simp: nth_Cons split: nat.splits)
      with k ih Inl show ?thesis
        by (auto simp: log_call_def intro!: exI[of _ "Suc k"])
    qed
  qed
qed

lemma delete_document_removes_chunks:
  assumes "VectorStore_delete_document vs document_id w = (Inr n, w1)"
  shows "chunks_of document_id w1 = []"
    and "collection w1 = chroma_delete (map entry_id (chunks_of document_id w)) (collection w)"
    and "n = length (chunks_of document_id w)"
proof -
  let ?wh = "Some (WhereEq ''document_id'' (MStr document_id))"
  let ?ex = "map entry_id (chroma_get ?wh (collection w))"
  from assms have c: "collection w1 = chroma_delete ?ex (collection w)"
    by (auto simp: VectorStore_delete_document_def Let_def log_call_def chroma_delete_def
          split: option.splits if_splits)
  then show "collection w1 = chroma_delete (map entry_id (chunks_of document_id w)) (collection w)"
    by (simp add: chunks_of_def)
  from assms show "n = length (chunks_of document_id w)"
    by (auto simp: VectorStore_delete_document_def Let_def log_call_def chunks_of_def
          split: option.splits if_splits)
  have "chroma_get ?wh (chroma_delete ?ex (collection w)) = []"
    by (auto simp: chroma_get_def chroma_delete_def filter_empty_conv)
  with c show "chunks_of document_id w1 = []" by (simp add: chunks_of_def)
qed


lemma generate_embeddings_collection:
  "generate_embeddings es texts w = (r, w') \<Longrightarrow> collection w' = collection w"
  using generate_embeddings_loop_result[of es texts "[]" w r w']
  by (simp add: generate_embeddings_def)


lemma chroma_hits_subset:
  "e \<in> set (chroma_hits d q k wh c) \<Longrightarrow> e \<in> set c \<and> where_matches wh (entry_metadata e)"
  by (auto simp: chroma_hits_def chroma_get_def dest!: in_set_takeD)

lemma chroma_hits_length: "length (chroma_hits d q k wh c) \<le> nat k"
  by (simp add: chroma_hits_def)

lemma where_filter_of_member:
  assumes "ds \<noteq> []" and "where_matches (where_filter_of (Some ds)) md"
  shows "\<exists>x\<in>set ds. md ''document_id'' = Some (MStr x)"
proof (cases "length ds = 1")
  case True
  with assms show ?thesis
    by (auto simp: where_filter_of_def intro!: bexI[of _ "hd ds"])
next
  case False
  with assms show ?thesis
    by (auto simp: where_filter_of_def split: option.splits)
qed

lemma VectorStore_query_empty_filter:
  "VectorStore_query vs q k (Some []) w = VectorStore_query vs q k None w"
  by (simp add: VectorStore_query_def where_filter_of_def)

lemma new_entries_ids:
  assumes "length vs = length ids" "length ds = length ids" "length ms = length ids"
  shows "map entry_id (map (\<lambda>(i, v, d, m). \<lparr>entry_id = i, entry_embedding = v,
             entry_document = d, entry_metadata = m\<rparr>) (zip ids (zip vs (zip ds ms)))) = ids"
proof -
  have "map entry_id (map (\<lambda>(i, v, d, m). \<lparr>entry_id = i, entry_embedding = v,
             entry_document = d, entry_metadata = m\<rparr>) (zip ids (zip vs (zip ds ms))))
        = map fst (zip ids (zip vs (zip ds ms)))"
    by (simp add: case_prod_beta)
  also have "\<dots> = ids" using assms by (simp add: map_fst_zip)
  finally show ?thesis .
qed

lemma new_entries_metadata:
  assumes "e \<in> set (map (\<lambda>(i, v, d, m). \<lparr>entry_id = i, entry_embedding = v,
             entry_document = d, entry_metadata = m\<rparr>) (zip ids (zip vs (zip ds ms))))"
  shows "entry_metadata e \<in> set ms"
  using assms by (auto dest!: set_zip_rightD)

lemma chunk_metadatas_document_id:
  assumes "or_empty md ''document_id'' = None \<or> or_empty md ''document_id'' = Some (MStr d)"
    and "m \<in> set (chunk_metadatas d n md)"
  shows "m ''document_id'' = Some (MStr d)"
  using assms by (auto simp: chunk_metadatas_def map_add_def split: option.splits)

lemma chunk_lengths:
  "length (chunk_ids d n) = n" "length (chunk_metadatas d n md) = n"
  by (simp_all add: chunk_ids_def chunk_metadatas_def)

lemma add_chunks_success:
  assumes "add_chunks vs d chunks embs md w = (Inr n, w')"
  shows "n = length chunks"
    and "length embs = length chunks"
    and "collection w' = collection w
           @ filter (\<lambda>e. entry_id e \<notin> entry_id ` set (collection w))
               (map (\<lambda>(i, v, d, m). \<lparr>entry_id = i, entry_embedding = v,
                       entry_document = d, entry_metadata = m\<rparr>)
                  (zip (chunk_ids d (length chunks))
                     (zip embs (zip chunks (chunk_metadatas d (length chunks) md)))))"
proof -
  from assms have f: "vs_fault vs OpAdd = None"
    by (cases "vs_fault vs OpAdd") (simp_all add: add_chunks_def Let_def)
  let ?r = "chroma_add (chunk_ids d (length chunks)) embs chunks
              (chunk_metadatas d (length chunks) md) (collection (log_call (Coll OpAdd) w))"
  from assms f obtain c where c: "?r = Inr c" and n: "n = length chunks"
    and w': "w' = (log_call (Coll OpAdd) w)\<lparr>collection := c\<rparr>"
    by (cases ?r) (simp_all add: add_chunks_def Let_def)
  from n show "n = length chunks" .
  from c show le: "length embs = length chunks"
    by (simp add: chroma_add_def chunk_lengths split: if_splits)
  from c le w' show "collection w' = collection w
           @ filter (\<lambda>e. entry_id e \<notin> entry_id ` set (collection w))
               (map (\<lambda>(i, v, d, m). \<lparr>entry_id = i, entry_embedding = v,
                       entry_document = d, entry_metadata = m\<rparr>)
                  (zip (chunk_ids d (length chunks))
                     (zip embs (zip chunks (chunk_metadatas d (length chunks) md)))))"
    by (simp add: chroma_add_def chunk_lengths log_call_def split: if_splits)
qed

lemma index_document_steps:
  assumes ok: "index_document svc d content md w = (Inr n, w')"
  shows "\<exists>k w1 chunks. VectorStore_delete_document (rag_vector_store svc) d w = (Inr k, w1)
          \<and> split_text (rag_embedding_service svc) content = Inr chunks
          \<and> (if chunks = [] then n = 0 \<and> w' = w1
              else (\<exists>embs w2. generate_embeddings (rag_embedding_service svc) chunks w1 = (Inr embs, w2)
                     \<and> add_chunks (rag_vector_store svc) d chunks embs md w2 = (Inr n, w')))"
proof -
  obtain r1 w1 where del: "VectorStore_delete_document (rag_vector_store svc) d w = (r1, w1)"
    by (cases "VectorStore_delete_document (rag_vector_store svc) d w")
  show ?thesis
  proof (cases r1)
    case (Inl e)
    with ok del show ?thesis by (simp add: index_document_def)
  next
    case (Inr k)
    note r1 = this
    show ?thesis
    proof (cases "split_text (rag_embedding_service svc) content")
      case (Inl e)
      with ok del r1 show ?thesis by (simp add: index_document_def)
    next
      case (Inr chunks)
      note sp = this
      show ?thesis
      proof (cases "chunks = []")
        case True
        with ok del r1 sp show ?thesis by (auto simp: index_document_def)
      next
        case False
        obtain r2 w2 where ge: "generate_embeddings (rag_embedding_service svc) chunks w1 = (r2, w2)"
          by (cases "generate_embeddings (rag_embedding_service svc) chunks w1")
        show ?thesis
        proof (cases r2)
          case (Inl e)
          with ok del r1 sp False ge show ?thesis by (simp add: index_document_def)
        next
          case (Inr embs)
          with ok del r1 sp False ge show ?thesis by (simp add: index_document_def)
        qed
      qed
    qed
  qed
qed

text \<open>
  Where re-indexing does replace: if the caller's metadata does not bind \<open>document_id\<close>
  to another value, and the entries that hold one of the document's chunk ids are tagged
  with the document, then after a successful \<open>index_document\<close> the chunks of the
  document are exactly the ones this call wrote.
\<close>

lemma index_document_replaces:
  assumes ok: "index_document svc d content md w = (Inr n, w')"
    and md: "or_empty md ''document_id'' = None \<or> or_empty md ''document_id'' = Some (MStr d)"
    and inv: "\<forall>e\<in>set (collection w). entry_id e \<in> set (chunk_ids d n)
                \<longrightarrow> entry_metadata e ''document_id'' = Some (MStr d)"
  shows "map entry_id (chunks_of d w') = chunk_ids d n"
proof -
  let ?vs = "rag_vector_store svc" and ?es = "rag_embedding_service svc"
  from index_document_steps[OF ok] obtain k w1 chunks where
    del: "VectorStore_delete_document ?vs d w = (Inr k, w1)"
    and sp: "split_text ?es content = Inr chunks"
    and rest: "if chunks = [] then n = 0 \<and> w' = w1
              else (\<exists>embs w2. generate_embeddings ?es chunks w1 = (Inr embs, w2)
                     \<and> add_chunks ?vs d chunks embs md w2 = (Inr n, w'))"
    by blast
  note d1 = delete_document_removes_chunks[OF del]
  show ?thesis
  proof (cases "chunks = []")
    case True
    with rest have "n = 0" "w' = w1" by simp_all
    with d1(1) show ?thesis by (simp add: chunk_ids_def)
  next
    case False
    with rest obtain embs w2 where
      ge: "generate_embeddings ?es chunks w1 = (Inr embs, w2)"
      and ad: "add_chunks ?vs d chunks embs md w2 = (Inr n, w')"
      by auto
    have c2: "collection w2 = collection w1"
      by (rule generate_embeddings_collection[OF ge])
    define new where "new = map (\<lambda>(i, v, d, m). \<lparr>entry_id = i, entry_embedding = v,
             entry_document = d, entry_metadata = m\<rparr>)
          (zip (chunk_ids d (length chunks))
             (zip embs (zip chunks (chunk_metadatas d (length chunks) md))))"
    note a = add_chunks_success[OF ad]
    from a(3) have cw: "collection w' = collection w2
                 @ filter (\<lambda>e. entry_id e \<notin> entry_id ` set (collection w2)) new"
      by (simp only: new_def)
    have ids: "map entry_id new = chunk_ids d n"
      unfolding new_def a(1) by (rule new_entries_ids) (simp_all add: a(2) chunk_lengths)
    have fresh: "entry_id e \<notin> entry_id ` set (collection w2)" if "e \<in> set new" for e
    proof
      assume "entry_id e \<in> entry_id ` set (collection w2)"
      then obtain x where x: "x \<in> set (collection w1)" "entry_id x = entry_id e"
        using c2 by auto
      from that have "entry_id e \<in> set (map entry_id new)" by simp
      with ids x have xi: "entry_id x \<in> set (chunk_ids d n)" by simp
      from x(1) d1(2) have xw: "x \<in> set (collection w)"
        and xn: "entry_id x \<notin> set (map entry_id (chunks_of d w))"
        by (simp_all add: chroma_delete_def)
      from inv xw xi have "entry_metadata x ''document_id'' = Some (MStr d)" by blast
      with xw have "x \<in> set (chunks_of d w)" by (simp add: chunks_of_def chroma_get_def)
      with xn show False by simp
    qed
    then have keep: "filter (\<lambda>e. entry_id e \<notin> entry_id ` set (collection w2)) new = new"
      by (simp add: filter_id_conv)
    have tagged: "entry_metadata e ''document_id'' = Some (MStr d)" if "e \<in> set new" for e
      using chunk_metadatas_document_id[OF md] new_entries_metadata[OF that[unfolded new_def]]
      by blast
    then have sel: "filter (\<lambda>e. entry_metadata e ''document_id'' = Some (MStr d)) new = new"
      by (simp add: filter_id_conv)
    from d1(1) c2 have old: "filter (\<lambda>e. entry_metadata e ''document_id'' = Some (MStr d))
                               (collection w2) = []"
      by (simp add: chunks_of_def chroma_get_def)
    have "chunks_of d w' = new"
      using cw keep sel old by (simp add: chunks_of_def chroma_get_def)
    with ids show ?thesis by simp
  qed
qed

section \<open>Vector index: stored metadata\<close>

text \<open>
  Claim C1. The metadata stored for entry \<open>i\<close> is the dict literal
  \<open>{"document_id": document_id, "chunk_index": i, **(metadata or {})}\<close>: the caller's
  metadata is spread last, so a caller key named \<open>document_id\<close> or \<open>chunk_index\<close>
  replaces the derived value. Run on document \<open>A\<close> with one chunk and caller metadata
  \<open>{document_id: B, chunk_index: 7}\<close>, the entry \<open>A_chunk_0\<close> is stored with
  \<open>document_id = B\<close> and \<open>chunk_index = 7\<close>, where the claim promises
  \<open>A\<close> and \<open>0\<close>.
\<close>

theorem add_chunks_caller_keys_override:
  "fst (add_chunks vs_ok ''A'' [''x''] [[1]]
          (Some [''document_id'' \<mapsto> MStr ''B'', ''chunk_index'' \<mapsto> MInt 7]) empty_world) = Inr 1
   \<and> map (\<lambda>e. (entry_id e, entry_metadata e ''document_id'', entry_metadata e ''chunk_index''))
        (collection (snd (add_chunks vs_ok ''A'' [''x''] [[1]]
            (Some [''document_id'' \<mapsto> MStr ''B'', ''chunk_index'' \<mapsto> MInt 7]) empty_world)))
       = [(''A_chunk_0'', Some (MStr ''B''), Some (MInt 7))]"
  by (simp add: run_defs str_nat.simps)

section \<open>Re-indexing\<close>

text \<open>
  Claim C2. A second \<open>index_document\<close> for a document is to delete every chunk stored
  by the first before it inserts. The delete selects by the metadata key
  \<open>document_id\<close>, which the caller's metadata can replace (C1): after indexing
  \<open>A\<close> with content \<open>hello\<close> and metadata \<open>{document_id: B}\<close>, a second
  call for \<open>A\<close> with empty content returns 0 chunks and leaves the chunk
  \<open>A_chunk_0\<close> of the first call in the collection.
\<close>

theorem reindex_keeps_first_generation:
  "fst (index_document rag_ok ''A'' ''hello'' (Some [''document_id'' \<mapsto> MStr ''B'']) empty_world)
     = Inr 1
   \<and> fst (index_document rag_ok ''A'' '''' None
            (snd (index_document rag_ok ''A'' ''hello'' (Some [''document_id'' \<mapsto> MStr ''B''])
                    empty_world))) = Inr 0
   \<and> map (\<lambda>e. (entry_id e, entry_document e))
        (collection (snd (index_document rag_ok ''A'' '''' None
            (snd (index_document rag_ok ''A'' ''hello'' (Some [''document_id'' \<mapsto> MStr ''B''])
                    empty_world)))))
       = [(''A_chunk_0'', ''hello'')]"
  by (simp add: run_defs str_nat.simps)

section \<open>Failure while indexing\<close>



section \<open>Query with no search result\<close>

text \<open>
  Claim C4. When the question is embedded and the vector search returns no result, the
  query returns the fixed answer with no sources and no searched document ids, and the
  only calls made are the embedding of the question and the search: the language model
  is not called.
\<close>

theorem query_without_results:
  assumes "es_embeddings (rag_embedding_service svc) question = Inr qv"
    and "VectorStore_query (rag_vector_store svc) qv top_k document_ids
           (log_call (Embeddings question) w) = (Inr results, w2)"
    and "res_ids results = [] \<or> hd (res_ids results) = []"
  shows "Rag_query svc question document_ids top_k w
           = (Inr \<lparr>answer = no_documents_answer, sources = [], document_ids_searched = []\<rparr>, w2)
       \<and> calls w2 = calls w @ [Embeddings question, Coll OpQuery]
       \<and> collection w2 = collection w"
proof -
  from assms(2) have "calls w2 = calls w @ [Embeddings question, Coll OpQuery]"
    "collection w2 = collection w"
    by (auto simp: VectorStore_query_def log_call_def Let_def split: option.splits)
  moreover from assms have "Rag_query svc question document_ids top_k w
           = (Inr \<lparr>answer = no_documents_answer, sources = [], document_ids_searched = []\<rparr>, w2)"
    by (auto simp: Rag_query_def generate_embedding_def)
  ultimately show ?thesis by simp
qed

theorem query_without_results_witness:
  "Rag_query rag_ok ''what?'' None 3 empty_world
     = (Inr \<lparr>answer = no_documents_answer, sources = [], document_ids_searched = []\<rparr>,
        \<lparr>collection = [], calls = [Embeddings ''what?'', Coll OpQuery]\<rparr>)"
proof -
  have e: "es_embeddings (rag_embedding_service rag_ok) ''what?'' = Inr [5]"
    by (simp add: run_defs)
  have q: "VectorStore_query (rag_vector_store rag_ok) [5] 3 None
             (log_call (Embeddings ''what?'') empty_world)
           = (Inr \<lparr>res_ids = [[]], res_documents = [[]], res_metadatas = [[]],
                    res_distances = [[]]\<rparr>,
              \<lparr>collection = [], calls = [Embeddings ''what?'', Coll OpQuery]\<rparr>)"
    by (simp add: run_defs)
  from query_without_results[OF e q] show ?thesis by simp
qed

section \<open>Batch embedding\<close>

text \<open>
  Claim C6. \<open>generate_embeddings\<close> calls the embedding model once per text, in the
  order of the input. If every call succeeds it returns the vectors, as many as the texts
  and in their order; if a call fails it raises the error of the first failing text, has
  made no call after it, and returns no vector. It fails exactly when some text fails.
\<close>

theorem generate_embeddings_batch:
  "generate_embeddings es texts w = (r, w') \<Longrightarrow>
     collection w' = collection w
     \<and> isl r = (\<exists>k<length texts. isl (es_embeddings es (texts ! k)))
     \<and> (case r of
          Inr vs \<Rightarrow> length vs = length texts
                    \<and> map Inr vs = map (es_embeddings es) texts
                    \<and> calls w' = calls w @ map Embeddings texts
        | Inl e \<Rightarrow> (\<exists>k<length texts. es_embeddings es (texts ! k) = Inl e
                      \<and> (\<forall>j<k. \<not> isl (es_embeddings es (texts ! j)))
                      \<and> calls w' = calls w @ map Embeddings (take (Suc k) texts)))"
proof -
  assume a: "generate_embeddings es texts w = (r, w')"
  then have l: "generate_embeddings_loop es texts [] w = (r, w')"
    by (simp add: generate_embeddings_def)
  note res = generate_embeddings_loop_result[OF l]
  show ?thesis
  proof (cases r)
    case (Inl e)
    with res show ?thesis by auto
  next
    case (Inr vs)
    with res have m: "map Inr vs = map (es_embeddings es) texts" by simp
    then have len: "length vs = length texts" by (metis length_map)
    have "\<not> isl (es_embeddings es (texts ! k))" if "k < length texts" for k
    proof -
      have "map Inr vs ! k = map (es_embeddings es) texts ! k" using m by simp
      with that len have "es_embeddings es (texts ! k) = Inr (vs ! k)" by simp
      then show ?thesis by simp
    qed
    with res Inr len show ?thesis by auto
  qed
qed

theorem generate_embeddings_batch_witness:
  "generate_embeddings es_ok [''a'', ''bb''] empty_world
     = (Inr [[1], [2]], \<lparr>collection = [], calls = [Embeddings ''a'', Embeddings ''bb'']\<rparr>)
   \<and> generate_embeddings es_ok [''a'', ''fail'', ''bb''] empty_world
     = (Inl ConnectionError, \<lparr>collection = [], calls = [Embeddings ''a'', Embeddings ''fail'']\<rparr>)
   \<and> length [[1], [2::real]] = length [''a'', ''bb'']
   \<and> map Inr [[1], [2]] = map (es_embeddings es_ok) [''a'', ''bb'']"
proof -
  have 1: "generate_embeddings es_ok [''a'', ''bb''] empty_world
     = (Inr [[1], [2]], \<lparr>collection = [], calls = [Embeddings ''a'', Embeddings ''bb'']\<rparr>)"
    by (simp add: generate_embeddings_def generate_embedding_def es_ok_def empty_world_def
          log_call_def)
  have 2: "generate_embeddings es_ok [''a'', ''fail'', ''bb''] empty_world
     = (Inl ConnectionError, \<lparr>collection = [], calls = [Embeddings ''a'', Embeddings ''fail'']\<rparr>)"
    by (simp add: generate_embeddings_def generate_embedding_def es_ok_def empty_world_def
          log_call_def)
  from generate_embeddings_batch[OF 1] generate_embeddings_batch[OF 2] 1 2
  show ?thesis by simp
qed

section \<open>Relevance score\<close>



section \<open>Document filter\<close>

text \<open>
  Claim C7. A query with a non-empty list \<open>document_ids\<close> returns only sources whose
  \<open>document_id\<close> is in the list. A query with an empty list behaves as a query with no
  list, and then no filter is applied: the search ranges over the whole collection.
\<close>

theorem query_document_filter:
  "(Rag_query svc question (Some document_ids) top_k w = (Inr resp, w') \<and> document_ids \<noteq> []
      \<longrightarrow> (\<forall>s\<in>set (sources resp). sc_document_id s \<in> set document_ids))
   \<and> Rag_query svc question (Some []) top_k w = Rag_query svc question None top_k w
   \<and> where_filter_of None = None
   \<and> chroma_get (where_filter_of None) c = c"
proof -
  have "sc_document_id s \<in> set document_ids"
    if q: "Rag_query svc question (Some document_ids) top_k w = (Inr resp, w')"
      and ne: "document_ids \<noteq> []" and s: "s \<in> set (sources resp)" for s
  proof -
    from Rag_query_sources[OF q] obtain qv where
      h: "list_all2 (source_of_hit (\<lambda>e. vs_distance (rag_vector_store svc) qv (entry_embedding e)))
            (sources resp)
            (chroma_hits (vs_distance (rag_vector_store svc)) qv top_k
               (where_filter_of (Some document_ids)) (collection w))"
      by blast
    from s obtain i where i: "i < length (sources resp)" "sources resp ! i = s"
      by (auto simp: in_set_conv_nth)
    define e where "e = chroma_hits (vs_distance (rag_vector_store svc)) qv top_k
               (where_filter_of (Some document_ids)) (collection w) ! i"
    from h i have se:
      "source_of_hit (\<lambda>e. vs_distance (rag_vector_store svc) qv (entry_embedding e)) s e"
      unfolding e_def using list_all2_nthD by fastforce
    from h i have e: "e \<in> set (chroma_hits (vs_distance (rag_vector_store svc)) qv top_k
               (where_filter_of (Some document_ids)) (collection w))"
      unfolding e_def using list_all2_lengthD nth_mem by metis
    from chroma_hits_subset[OF e] have "where_matches (where_filter_of (Some document_ids)) (entry_metadata e)"
      by simp
    from where_filter_of_member[OF ne this] obtain x where
      "x \<in> set document_ids" "entry_metadata e ''document_id'' = Some (MStr x)" by blast
    with se show ?thesis by (simp add: source_of_hit_def)
  qed
  moreover have "Rag_query svc question (Some []) top_k w = Rag_query svc question None top_k w"
    unfolding Rag_query_def VectorStore_query_empty_filter ..
  moreover have "where_filter_of None = None" "chroma_get (where_filter_of None) c = c"
    by (simp_all add: where_filter_of_def chroma_get_def)
  ultimately show ?thesis by blast
qed

theorem query_document_filter_witness:
  "map sc_document_id
     (sources (projr (fst (Rag_query rag_ok ''abcde'' (Some [''A'']) 3 stale_world)))) = [''A'']
   \<and> map sc_document_id
     (sources (projr (fst (Rag_query rag_ok ''abcde'' None 3 stale_world)))) = [''B'', ''A'']"
proof -
  let ?q = "Rag_query rag_ok ''abcde'' (Some [''A'']) 3 stale_world"
  have q: "?q = (Inr (projr (fst ?q)), snd ?q)"
    by (simp add: eval_defs)
  have v: "map sc_document_id (sources (projr (fst ?q))) = [''A'']"
    by (simp add: eval_defs)
  have n: "map sc_document_id
     (sources (projr (fst (Rag_query rag_ok ''abcde'' None 3 stale_world)))) = [''B'', ''A'']"
    by (simp add: eval_defs)
  from query_document_filter[of rag_ok "''abcde''" "[''A'']" 3 stale_world "projr (fst ?q)" "snd ?q"]
    q v n
  show ?thesis by simp
qed

section \<open>Bound on the number of sources\<close>

text \<open>
  Claim C8. The response to a query request holds at most \<open>top_k\<close> sources (3 when the
  request does not give \<open>top_k\<close>), and a request whose \<open>top_k\<close> is below 1 or above 10
  is rejected with a validation error while the state is unchanged: nothing has been
  embedded, searched or generated. A direct call of the service's \<open>query\<close> that
  returns a response also returns at most \<open>top_k\<close> sources (none for a \<open>top_k\<close>
  below 1).
\<close>

theorem query_top_k:
  "(post_query rt body w = (Inr resp, w')
      \<longrightarrow> int (length (sources resp)) \<le> (case body_top_k body of None \<Rightarrow> 3 | Some k \<Rightarrow> k))
   \<and> (body_top_k body = Some k \<and> (k < 1 \<or> 10 < k)
      \<longrightarrow> post_query rt body w = (Inl RequestValidationError, w))
   \<and> (Rag_query svc question document_ids top_k w1 = (Inr resp1, w1')
      \<longrightarrow> length (sources resp1) \<le> nat top_k)"
proof -
  have svc: "length (sources r) \<le> nat n"
    if "Rag_query s q ds n v = (Inr r, v')" for s q ds n v r v'
  proof -
    from Rag_query_sources[OF that] obtain qv where
      h: "list_all2 (source_of_hit (\<lambda>e. vs_distance (rag_vector_store s) qv (entry_embedding e)))
            (sources r)
            (chroma_hits (vs_distance (rag_vector_store s)) qv n (where_filter_of ds) (collection v))"
      by blast
    then show ?thesis
      using chroma_hits_length by (metis list_all2_lengthD)
  qed
  have "int (length (sources resp)) \<le> (case body_top_k body of None \<Rightarrow> 3 | Some k \<Rightarrow> k)"
    if "post_query rt body w = (Inr resp, w')"
    using that
    by (auto simp: post_query_def query_documents_def QueryRequest_validate_def Let_def
          split: sum.splits option.splits if_splits prod.splits dest!: svc)
  moreover have "post_query rt body w = (Inl RequestValidationError, w)"
    if "body_top_k body = Some k" "k < 1 \<or> 10 < k"
    using that
    by (auto simp: post_query_def QueryRequest_validate_def Let_def split: option.splits)
  ultimately show ?thesis using svc by blast
qed

theorem query_top_k_witness:
  "map sc_document_id (sources (projr (fst (post_query (init_router rag_ok es_ok vs_ok)
       \<lparr>body_question = Some ''abc'', body_document_ids = None, body_top_k = Some 1\<rparr>
       stale_world)))) = [''A'']
   \<and> post_query (init_router rag_ok es_ok vs_ok)
       \<lparr>body_question = Some ''abc'', body_document_ids = None, body_top_k = Some 11\<rparr>
       stale_world = (Inl RequestValidationError, stale_world)
   \<and> post_query (init_router rag_ok es_ok vs_ok)
       \<lparr>body_question = Some ''abc'', body_document_ids = None, body_top_k = Some 0\<rparr>
       stale_world = (Inl RequestValidationError, stale_world)"
proof -
  let ?rt = "init_router rag_ok es_ok vs_ok"
  let ?b = "\<lambda>k. \<lparr>body_question = Some ''abc'', body_document_ids = None, body_top_k = Some k\<rparr>"
  let ?p = "post_query ?rt (?b 1) stale_world"
  have p: "?p = (Inr (projr (fst ?p)), snd ?p)"
    by (simp add: eval_defs)
  have v: "map sc_document_id (sources (projr (fst ?p))) = [''A'']"
    by (simp add: eval_defs)
  from query_top_k[of ?rt "?b 1" stale_world "projr (fst ?p)" "snd ?p" 1 rag_ok "''abc''" None 1
         stale_world "projr (fst (Rag_query rag_ok ''abc'' None 1 stale_world))"
         "snd (Rag_query rag_ok ''abc'' None 1 stale_world)"]
       query_top_k[of ?rt "?b 11" stale_world _ _ 11]
       query_top_k[of ?rt "?b 0" stale_world _ _ 0]
       p v
  show ?thesis by simp
qed

section \<open>Health endpoint\<close>

text \<open>
  Claim C10. Once \<open>init_router\<close> has stored the service instances, the health endpoint
  answers \<open>healthy\<close> when both the embedding service and the vector store are reachable
  and \<open>degraded\<close> otherwise, also when neither is reachable; it never answers
  \<open>unhealthy\<close> then. Before \<open>init_router\<close> the answer is \<open>unhealthy\<close>, and for
  any state of the router it is \<open>unhealthy\<close> exactly when the embedding service or the
  vector store reference is still unset.
\<close>

theorem health_check_status:
  "status (fst (health_check (init_router rag es vs) w))
     = (if \<not> isl (es_list es) \<and> vs_fault vs OpCount = None then ''healthy'' else ''degraded'')
   \<and> status (fst (health_check (init_router rag es vs) w)) \<noteq> ''unhealthy''
   \<and> status (fst (health_check router_at_import w)) = ''unhealthy''
   \<and> ((status (fst (health_check rt w)) = ''unhealthy'')
        = (r_embedding_service rt = None \<or> r_vector_store rt = None))"
  by (auto simp: health_check_def init_router_def router_at_import_def
        Embedding_check_connection_def
        VectorStore_check_connection_def split: option.splits sum.splits prod.splits)

end
